theory Spec2Isabelle
  imports Main "HOL-Library.List_Lexorder" "HOL-Library.Product_Lexorder"
begin

section \<open>The syntax tree\<close>

text \<open>
  The checker of \<^verbatim>\<open>pep8ext/astchecker.py\<close> walks the tree that Python's \<^verbatim>\<open>ast\<close> module
  builds (the Python 3 branch of the file, where \<^verbatim>\<open>vararg\<close> and \<^verbatim>\<open>kwarg\<close> are names).
  The node kinds the code tests with \<^verbatim>\<open>isinstance\<close> are constructors of their own; every
  other kind is \<open>Other\<close>, with its class name and its children in field order.

  A \<^verbatim>\<open>FunctionDef\<close> holds the names of its \<^verbatim>\<open>arguments\<close> object as a record and the
  expressions below that object (defaults, annotations) as \<open>arg_exprs\<close>. An \<^verbatim>\<open>ImportFrom\<close>
  holds its \<^verbatim>\<open>alias\<close> entries as pairs of a name and an optional \<^verbatim>\<open>asname\<close>. The two
  attributes the checker writes on a \<^verbatim>\<open>FunctionDef\<close>, \<^verbatim>\<open>function_type\<close> and
  \<^verbatim>\<open>global_names\<close>, are the last two fields: \<open>None\<close> while the attribute is not set.
  The \<^verbatim>\<open>ctx\<close> child of a \<^verbatim>\<open>Name\<close> (a shared \<^verbatim>\<open>Load\<close> or \<^verbatim>\<open>Store\<close> object) is left out.
\<close>

record arguments =
  args :: "string list"
  vararg :: "string option"
  kwonlyargs :: "string list"
  kwarg :: "string option"

datatype node =
    ClassDef int int string "node list" "node list" "node list"
      \<comment> \<open>lineno, col_offset, name, bases and keywords, body, decorator_list\<close>
  | FunctionDef int int string arguments "node list" "node list" "node list" "node list"
      "string option" "string set option"
      \<comment> \<open>lineno, col_offset, name, args, arg_exprs, body, decorator_list, returns,
          function_type, global_names\<close>
  | Assign int int "node list" node
      \<comment> \<open>lineno, col_offset, targets, value\<close>
  | Call int int node "node list" "node list"
      \<comment> \<open>lineno, col_offset, func, args, keywords and starred arguments\<close>
  | Name int int string
      \<comment> \<open>lineno, col_offset, id\<close>
  | Global int int "string list"
      \<comment> \<open>lineno, col_offset, names\<close>
  | ImportFrom int int "(string \<times> string option) list"
      \<comment> \<open>lineno, col_offset, names\<close>
  | Other string "node list"
      \<comment> \<open>class name, children\<close>

datatype error = AttributeError

text \<open>\<^verbatim>\<open>ast.iter_child_nodes\<close>: the children of a node, in the order of its fields.\<close>

fun ast_iter_nodes :: "node \<Rightarrow> node list" where
  "ast_iter_nodes (ClassDef l c n bases body decs) = bases @ body @ decs"
| "ast_iter_nodes (FunctionDef l c n a arg_exprs body decs returns ft gn) =
     Other ''arguments'' arg_exprs # body @ decs @ returns"
| "ast_iter_nodes (Assign l c targets v) = targets @ [v]"
| "ast_iter_nodes (Call l c f as ks) = f # as @ ks"
| "ast_iter_nodes (Name l c i) = []"
| "ast_iter_nodes (Global l c ns) = []"
| "ast_iter_nodes (ImportFrom l c ns) = map (\<lambda>a. Other ''alias'' []) ns"
| "ast_iter_nodes (Other k cs) = cs"

text \<open>\<^verbatim>\<open>node.__class__.__name__\<close>.\<close>

fun class_name :: "node \<Rightarrow> string" where
  "class_name (ClassDef l c n bases body decs) = ''ClassDef''"
| "class_name (FunctionDef l c n a arg_exprs body decs returns ft gn) = ''FunctionDef''"
| "class_name (Assign l c targets v) = ''Assign''"
| "class_name (Call l c f as ks) = ''Call''"
| "class_name (Name l c i) = ''Name''"
| "class_name (Global l c ns) = ''Global''"
| "class_name (ImportFrom l c ns) = ''ImportFrom''"
| "class_name (Other k cs) = k"

text \<open>\<^verbatim>\<open>node.lineno, node.col_offset\<close>; a node without them raises \<^verbatim>\<open>AttributeError\<close>.\<close>

fun position :: "node \<Rightarrow> error + int \<times> int" where
  "position (ClassDef l c n bases body decs) = Inr (l, c)"
| "position (FunctionDef l c n a arg_exprs body decs returns ft gn) = Inr (l, c)"
| "position (Assign l c targets v) = Inr (l, c)"
| "position (Call l c f as ks) = Inr (l, c)"
| "position (Name l c i) = Inr (l, c)"
| "position (Global l c ns) = Inr (l, c)"
| "position (ImportFrom l c ns) = Inr (l, c)"
| "position (Other k cs) = Inl AttributeError"

section \<open>The regular expressions\<close>

text \<open>
  \<^verbatim>\<open>re.match\<close> anchors at the start, and \<^verbatim>\<open>$\<close> matches at the end of the string or before
  a newline that ends it. No character class of the three patterns holds the newline, so
  a name matches when the name without such a final newline is in the language.
\<close>

definition dollar :: "string \<Rightarrow> string" where
  "dollar s = (if s \<noteq> [] \<and> last s = CHR 0x0A then butlast s else s)"

definition lower_letter :: "char \<Rightarrow> bool" where
  "lower_letter c = (c \<in> set ''abcdefghijklmnopqrstuvwxyz'')"

definition upper_letter :: "char \<Rightarrow> bool" where
  "upper_letter c = (c \<in> set ''ABCDEFGHIJKLMNOPQRSTUVWXYZ'')"

definition digit :: "char \<Rightarrow> bool" where
  "digit c = (c \<in> set ''0123456789'')"

text \<open>\<^verbatim>\<open>LOWERCASE_REGEX = re.compile(r'[_a-z][_a-z0-9]*$')\<close>\<close>

definition LOWERCASE_REGEX :: "string \<Rightarrow> bool" where
  "LOWERCASE_REGEX s =
     (case dollar s of
        [] \<Rightarrow> False
      | c # cs \<Rightarrow> (c = CHR ''_'' \<or> lower_letter c) \<and>
          list_all (\<lambda>x. x = CHR ''_'' \<or> lower_letter x \<or> digit x) cs)"

text \<open>\<^verbatim>\<open>UPPERCASE_REGEX = re.compile(r'[_A-Z][_A-Z0-9]*$')\<close>\<close>

definition UPPERCASE_REGEX :: "string \<Rightarrow> bool" where
  "UPPERCASE_REGEX s =
     (case dollar s of
        [] \<Rightarrow> False
      | c # cs \<Rightarrow> (c = CHR ''_'' \<or> upper_letter c) \<and>
          list_all (\<lambda>x. x = CHR ''_'' \<or> upper_letter x \<or> digit x) cs)"

text \<open>\<^verbatim>\<open>MIXEDCASE_REGEX = re.compile(r'_?[A-Z][a-zA-Z0-9]*$')\<close>\<close>

definition MIXEDCASE_REGEX :: "string \<Rightarrow> bool" where
  "MIXEDCASE_REGEX s =
     (let t = dollar s;
          u = (if t \<noteq> [] \<and> hd t = CHR ''_'' then tl t else t)
      in case u of
        [] \<Rightarrow> False
      | c # cs \<Rightarrow> upper_letter c \<and>
          list_all (\<lambda>x. lower_letter x \<or> upper_letter x \<or> digit x) cs)"

section \<open>The checks and their diagnostics\<close>

datatype check =
    ClassNameCheck | FunctionNameCheck | FunctionArgNamesCheck | ImportAsCheck
  | VariablesInFunctionCheck

text \<open>The messages, as the check classes bind them to their codes.\<close>

definition E800 :: string where "E800 = ''class names should use CapWords convention''"
definition E801 :: string where "E801 = ''function name should be lowercase''"
definition E802 :: string where "E802 = ''argument name should be lowercase''"
definition E803 :: string where
  "E803 = ''first argument of a classmethod should be named '' @ [CHR 0x27] @ ''cls'' @ [CHR 0x27]"
definition E804 :: string where
  "E804 = ''first argument of a method should be named '' @ [CHR 0x27] @ ''self'' @ [CHR 0x27]"
definition E805 :: string where "E805 = ''variable in function should be lowercase''"
definition W800 :: string where "W800 = ''constant imported as non constant''"
definition W801 :: string where "W801 = ''lowercase imported as non lowercase''"
definition W802 :: string where "W802 = ''camelcase imported as lowercase''"
definition W803 :: string where "W803 = ''camelcase imported as constant''"

text \<open>\<^verbatim>\<open>getattr(self, code)\<close>: the message of a code, for the check that binds it.\<close>

fun message :: "check \<Rightarrow> string \<Rightarrow> error + string" where
  "message ClassNameCheck code =
     (if code = ''E800'' then Inr E800 else Inl AttributeError)"
| "message FunctionNameCheck code =
     (if code = ''E801'' then Inr E801 else Inl AttributeError)"
| "message FunctionArgNamesCheck code =
     (if code = ''E802'' then Inr E802
      else if code = ''E803'' then Inr E803
      else if code = ''E804'' then Inr E804
      else Inl AttributeError)"
| "message ImportAsCheck code =
     (if code = ''W800'' then Inr W800
      else if code = ''W801'' then Inr W801
      else if code = ''W802'' then Inr W802
      else if code = ''W803'' then Inr W803
      else Inl AttributeError)"
| "message VariablesInFunctionCheck code =
     (if code = ''E805'' then Inr E805 else Inl AttributeError)"

type_synonym diagnostic = "int \<times> int \<times> string \<times> check"

fun decorator_list :: "node \<Rightarrow> node list" where
  "decorator_list (ClassDef l c n bases body decs) = decs"
| "decorator_list (FunctionDef l c n a arg_exprs body decs returns ft gn) = decs"
| "decorator_list other = []"

fun is_ClassDef :: "node \<Rightarrow> bool" where
  "is_ClassDef (ClassDef l c n bases body decs) = True"
| "is_ClassDef other = False"

fun is_FunctionDef :: "node \<Rightarrow> bool" where
  "is_FunctionDef (FunctionDef l c n a arg_exprs body decs returns ft gn) = True"
| "is_FunctionDef other = False"

text \<open>
  \<^verbatim>\<open>_err(self, node, code)\<close>: the position of the node, moved past the decorators and the
  keyword for a class or a function, and the text \<^verbatim>\<open>'%s %s' % (code, getattr(self, code))\<close>.
\<close>

definition err :: "check \<Rightarrow> node \<Rightarrow> string \<Rightarrow> error + diagnostic" where
  "err self node code =
     (case position node of
        Inl e \<Rightarrow> Inl e
      | Inr (lineno, col_offset) \<Rightarrow>
          (let (lineno, col_offset) =
                 (if is_ClassDef node
                  then (lineno + int (length (decorator_list node)), col_offset + 6)
                  else if is_FunctionDef node
                  then (lineno + int (length (decorator_list node)), col_offset + 4)
                  else (lineno, col_offset))
           in case message self code of
                Inl e \<Rightarrow> Inl e
              | Inr text \<Rightarrow> Inr (lineno, col_offset, code @ '' '' @ text, self)))"

text \<open>
  A handler is a generator: it yields diagnostics and may raise. Its value here is the list
  of what it yields, or the error when it raises; \<open>yield\<close> is one \<^verbatim>\<open>yield self.err(...)\<close>
  and \<open>andthen\<close> runs one generator after another.
\<close>

definition yield :: "error + 'd \<Rightarrow> error + 'd list" where
  "yield r = (case r of Inl e \<Rightarrow> Inl e | Inr d \<Rightarrow> Inr [d])"

definition andthen :: "error + 'd list \<Rightarrow> error + 'd list \<Rightarrow> error + 'd list" where
  "andthen a b =
     (case a of
        Inl e \<Rightarrow> Inl e
      | Inr xs \<Rightarrow> (case b of Inl e \<Rightarrow> Inl e | Inr ys \<Rightarrow> Inr (xs @ ys)))"

fun andthen_all :: "(error + 'd list) list \<Rightarrow> error + 'd list" where
  "andthen_all [] = Inr []"
| "andthen_all (r # rs) = andthen r (andthen_all rs)"

type_synonym 'd handler = "node \<Rightarrow> node list \<Rightarrow> error + 'd list"

text \<open>\<^verbatim>\<open>getattr(node, 'function_type', 'function')\<close>\<close>

fun function_type :: "node \<Rightarrow> string" where
  "function_type (FunctionDef l c n a arg_exprs body decs returns ft gn) =
     (case ft of None \<Rightarrow> ''function'' | Some t \<Rightarrow> t)"
| "function_type other = ''function''"

text \<open>\<^verbatim>\<open>node.global_names\<close>, an \<^verbatim>\<open>AttributeError\<close> while it is not set.\<close>

fun global_names_attr :: "node \<Rightarrow> error + string set" where
  "global_names_attr (FunctionDef l c n a arg_exprs body decs returns ft gn) =
     (case gn of None \<Rightarrow> Inl AttributeError | Some g \<Rightarrow> Inr g)"
| "global_names_attr other = Inl AttributeError"

text \<open>\<^verbatim>\<open>get_arg_names\<close> of Python 3: the positional names, then the keyword-only names.\<close>

fun get_arg_names :: "node \<Rightarrow> string list" where
  "get_arg_names (FunctionDef l c n a arg_exprs body decs returns ft gn) =
     (let pos_args = args a; kw_only = kwonlyargs a in pos_args @ kw_only)"
| "get_arg_names other = []"

subsection \<open>ClassNameCheck\<close>

fun ClassNameCheck_visit_classdef :: "diagnostic handler" where
  "ClassNameCheck_visit_classdef (ClassDef l c name bases body decs) parents =
     (if \<not> MIXEDCASE_REGEX name
      then yield (err ClassNameCheck (ClassDef l c name bases body decs) ''E800'')
      else Inr [])"
| "ClassNameCheck_visit_classdef other parents = Inl AttributeError"

subsection \<open>FunctionNameCheck\<close>

text \<open>\<^verbatim>\<open>'__' in (name[:2], name[-2:])\<close>\<close>

definition dunder :: "string \<Rightarrow> bool" where
  "dunder name = (take 2 name = ''__'' \<or> drop (length name - 2) name = ''__'')"

fun FunctionNameCheck_visit_functiondef :: "diagnostic handler" where
  "FunctionNameCheck_visit_functiondef
       (FunctionDef l c name a arg_exprs body decs returns ft gn) parents =
     (let node = FunctionDef l c name a arg_exprs body decs returns ft gn;
          function_type = function_type node
      in if (function_type = ''function'' \<and> dunder name) \<or> \<not> LOWERCASE_REGEX name
         then yield (err FunctionNameCheck node ''E801'')
         else Inr [])"
| "FunctionNameCheck_visit_functiondef other parents = Inl AttributeError"

subsection \<open>FunctionArgNamesCheck\<close>

text \<open>The last loop of the handler: the first name that fails is reported, and it returns.\<close>

fun check_arg_names :: "node \<Rightarrow> string list \<Rightarrow> error + diagnostic list" where
  "check_arg_names node [] = Inr []"
| "check_arg_names node (arg # arg_names) =
     (if \<not> LOWERCASE_REGEX arg then yield (err FunctionArgNamesCheck node ''E802'')
      else check_arg_names node arg_names)"

definition first_arg_check :: "node \<Rightarrow> string list \<Rightarrow> error + diagnostic list" where
  "first_arg_check node arg_names =
     (let function_type = function_type node
      in if function_type = ''method''
         then (if hd arg_names \<noteq> ''self''
               then yield (err FunctionArgNamesCheck node ''E804'') else Inr [])
         else if function_type = ''classmethod''
         then (if hd arg_names \<noteq> ''cls''
               then yield (err FunctionArgNamesCheck node ''E803'') else Inr [])
         else Inr [])"

fun FunctionArgNamesCheck_visit_functiondef :: "diagnostic handler" where
  "FunctionArgNamesCheck_visit_functiondef
       (FunctionDef l c name a arg_exprs body decs returns ft gn) parents =
     (let node = FunctionDef l c name a arg_exprs body decs returns ft gn
      in if (case kwarg a of None \<Rightarrow> False | Some k \<Rightarrow> \<not> LOWERCASE_REGEX k)
         then yield (err FunctionArgNamesCheck node ''E802'')
         else if (case vararg a of None \<Rightarrow> False | Some v \<Rightarrow> \<not> LOWERCASE_REGEX v)
         then yield (err FunctionArgNamesCheck node ''E802'')
         else
           (let arg_names = get_arg_names node
            in if arg_names = [] then Inr []
               else andthen (first_arg_check node arg_names)
                            (check_arg_names node arg_names)))"
| "FunctionArgNamesCheck_visit_functiondef other parents = Inl AttributeError"

subsection \<open>ImportAsCheck\<close>

text \<open>One round of the loop over \<^verbatim>\<open>node.names\<close>; an absent or empty \<^verbatim>\<open>asname\<close> is skipped.\<close>

definition import_as_name :: "node \<Rightarrow> string \<times> string option \<Rightarrow> error + diagnostic list" where
  "import_as_name node name =
     (case snd name of
        None \<Rightarrow> Inr []
      | Some asname \<Rightarrow>
          if asname = [] then Inr []
          else if UPPERCASE_REGEX (fst name)
          then (if \<not> UPPERCASE_REGEX asname
                then yield (err ImportAsCheck node ''W800'') else Inr [])
          else if LOWERCASE_REGEX (fst name)
          then (if \<not> LOWERCASE_REGEX asname
                then yield (err ImportAsCheck node ''W801'') else Inr [])
          else if LOWERCASE_REGEX asname
          then yield (err ImportAsCheck node ''W802'')
          else if UPPERCASE_REGEX asname
          then yield (err ImportAsCheck node ''W803'')
          else Inr [])"

fun ImportAsCheck_visit_importfrom :: "diagnostic handler" where
  "ImportAsCheck_visit_importfrom (ImportFrom l c names) parents =
     andthen_all (map (import_as_name (ImportFrom l c names)) names)"
| "ImportAsCheck_visit_importfrom other parents = Inl AttributeError"

subsection \<open>VariablesInFunctionCheck\<close>

text \<open>
  The search \<^verbatim>\<open>for parent_func in reversed(parents)\<close>, on the reversed list: \<open>None\<close> where
  the handler returns (a class comes first, or the list ends), the function otherwise.
\<close>

fun find_parent_func :: "node list \<Rightarrow> node option" where
  "find_parent_func [] = None"
| "find_parent_func (parent_func # rest) =
     (if is_ClassDef parent_func then None
      else if is_FunctionDef parent_func then Some parent_func
      else find_parent_func rest)"

text \<open>\<^verbatim>\<open>isinstance(target, ast.Name) and target.id\<close>; \<open>[]\<close> stands for every false value.\<close>

fun target_name :: "node \<Rightarrow> string" where
  "target_name (Name l c i) = i"
| "target_name other = []"

fun check_targets :: "node \<Rightarrow> node list \<Rightarrow> error + diagnostic list" where
  "check_targets parent_func [] = Inr []"
| "check_targets parent_func (target # targets) =
     (let name = target_name target
      in if name = [] then Inr []
         else (case global_names_attr parent_func of
                 Inl e \<Rightarrow> Inl e
               | Inr g \<Rightarrow>
                   if name \<in> g then Inr []
                   else andthen
                     (if \<not> LOWERCASE_REGEX name \<and> take 1 name \<noteq> ''_''
                      then yield (err VariablesInFunctionCheck target ''E805'') else Inr [])
                     (check_targets parent_func targets)))"

fun VariablesInFunctionCheck_visit_assign :: "diagnostic handler" where
  "VariablesInFunctionCheck_visit_assign (Assign l c targets v) parents =
     (case find_parent_func (rev parents) of
        None \<Rightarrow> Inr []
      | Some parent_func \<Rightarrow> check_targets parent_func targets)"
| "VariablesInFunctionCheck_visit_assign other parents = Inl AttributeError"

section \<open>The annotator\<close>

text \<open>
  The number of nodes below and at a node, counting the \<^verbatim>\<open>arguments\<close> and \<^verbatim>\<open>alias\<close>
  children: the measure of the two traversals.
\<close>

fun count :: "node \<Rightarrow> nat" where
  "count (ClassDef l c n bases body decs) =
     Suc (sum_list (map count bases) + sum_list (map count body) + sum_list (map count decs))"
| "count (FunctionDef l c n a arg_exprs body decs returns ft gn) =
     Suc (Suc (sum_list (map count arg_exprs)) + sum_list (map count body)
          + sum_list (map count decs) + sum_list (map count returns))"
| "count (Assign l c targets v) = Suc (sum_list (map count targets) + count v)"
| "count (Call l c f as ks) = Suc (count f + sum_list (map count as) + sum_list (map count ks))"
| "count (Name l c i) = 1"
| "count (Global l c ns) = 1"
| "count (ImportFrom l c ns) = Suc (length ns)"
| "count (Other k cs) = Suc (sum_list (map count cs))"

subsection \<open>\<^verbatim>\<open>tag_class_functions\<close>\<close>

text \<open>
  One round of the first loop: an \<^verbatim>\<open>Assign\<close> whose value is a call of the name
  \<^verbatim>\<open>classmethod\<close> or \<^verbatim>\<open>staticmethod\<close> on one positional argument that is a name
  stores \<^verbatim>\<open>late_decoration[meth.id] = func_name\<close>.
\<close>

fun late_decoration_step :: "(string \<rightharpoonup> string) \<Rightarrow> node \<Rightarrow> (string \<rightharpoonup> string)" where
  "late_decoration_step late_decoration (Assign l c targets (Call l' c' (Name l'' c'' func_name) as ks)) =
     (if func_name = ''classmethod'' \<or> func_name = ''staticmethod''
      then (case as of
              [Name l3 c3 meth_id] \<Rightarrow> late_decoration(meth_id \<mapsto> func_name)
            | _ \<Rightarrow> late_decoration)
      else late_decoration)"
| "late_decoration_step late_decoration other = late_decoration"

definition late_decorations :: "node list \<Rightarrow> (string \<rightharpoonup> string)" where
  "late_decorations nodes = foldl late_decoration_step Map.empty nodes"

text \<open>
  \<^verbatim>\<open>[d.id for d in node.decorator_list if isinstance(d, ast.Name) and
  d.id in ('classmethod', 'staticmethod')]\<close>
\<close>

fun decorator_names :: "node list \<Rightarrow> string list" where
  "decorator_names [] = []"
| "decorator_names (Name l c i # ds) =
     (if i = ''classmethod'' \<or> i = ''staticmethod'' then i # decorator_names ds
      else decorator_names ds)"
| "decorator_names (d # ds) = decorator_names ds"

text \<open>One round of the second loop: what it writes on a child of the class.\<close>

fun tag_function :: "(string \<rightharpoonup> string) \<Rightarrow> node \<Rightarrow> node" where
  "tag_function late_decoration (FunctionDef l c name a arg_exprs body decs returns ft gn) =
     FunctionDef l c name a arg_exprs body decs returns
       (Some (case late_decoration name of
                Some t \<Rightarrow> t
              | None \<Rightarrow>
                  if decs \<noteq> []
                  then (case decorator_names decs of [] \<Rightarrow> ''method'' | n # ns \<Rightarrow> n)
                  else ''method''))
       gn"
| "tag_function late_decoration other = other"

fun tag_class_functions :: "node \<Rightarrow> node" where
  "tag_class_functions (ClassDef l c n bases body decs) =
     (let late_decoration = late_decorations (ast_iter_nodes (ClassDef l c n bases body decs))
      in ClassDef l c n (map (tag_function late_decoration) bases)
           (map (tag_function late_decoration) body)
           (map (tag_function late_decoration) decs))"
| "tag_class_functions other = other"

subsection \<open>\<^verbatim>\<open>find_global_defs\<close>\<close>

lemma count_child: "x \<in> set (ast_iter_nodes n) \<Longrightarrow> count x < count n"
proof -
  have le: "\<And>xs. x \<in> set xs \<Longrightarrow> count x \<le> sum_list (map count xs)"
    by (simp add: member_le_sum_list)
  assume "x \<in> set (ast_iter_nodes n)"
  then show ?thesis
    by (cases n) (auto dest: le)
qed

text \<open>
  The loop \<^verbatim>\<open>while nodes_to_check\<close>: \<^verbatim>\<open>pop()\<close> takes the last node of the deque,
  \<^verbatim>\<open>extend\<close> appends the children of a node that is neither a function nor a class.
\<close>

fun names_of_global :: "node \<Rightarrow> string set" where
  "names_of_global (Global l c names) = set names"
| "names_of_global other = {}"

function global_loop :: "string set \<Rightarrow> node list \<Rightarrow> string set" where
  "global_loop global_names nodes_to_check =
     (if nodes_to_check = [] then global_names
      else
        (let node = last nodes_to_check;
             nodes_to_check = butlast nodes_to_check;
             global_names = global_names \<union> names_of_global node;
             nodes_to_check =
               (if \<not> (is_FunctionDef node \<or> is_ClassDef node)
                then nodes_to_check @ ast_iter_nodes node else nodes_to_check)
         in global_loop global_names nodes_to_check))"
  by pat_completeness auto

lemma count_children: "sum_list (map count (ast_iter_nodes n)) < count n"
  by (cases n) (simp_all add: comp_def sum_list_triv)

lemma count_butlast:
  "ns \<noteq> [] \<Longrightarrow> sum_list (map count ns) = sum_list (map count (butlast ns)) + count (last ns)"
  by (induction ns) auto

termination global_loop
proof (relation "measure (\<lambda>(g, ns). sum_list (map count ns))", goal_cases)
  case 1
  show ?case by simp
next
  case (2 global_names nodes_to_check node rest g' rest')
  then show ?case
    using count_children [of node] count_butlast [of nodes_to_check]
    by (auto split: if_splits)
qed

declare global_loop.simps [simp del]

fun find_global_defs :: "node \<Rightarrow> node" where
  "find_global_defs (FunctionDef l c n a arg_exprs body decs returns ft gn) =
     (let global_names = {};
          nodes_to_check = ast_iter_nodes (FunctionDef l c n a arg_exprs body decs returns ft gn)
      in FunctionDef l c n a arg_exprs body decs returns ft
           (Some (global_loop global_names nodes_to_check)))"
| "find_global_defs other = other"

section \<open>The traversal\<close>

text \<open>\<^verbatim>\<open>str.lower\<close> on the class names, which are ASCII.\<close>

definition lower_char :: "char \<Rightarrow> char" where
  "lower_char c = (if upper_letter c then char_of (of_char c + (32::nat)) else c)"

definition lower :: "string \<Rightarrow> string" where
  "lower s = map lower_char s"

text \<open>
  A visitor is a check object, looked at through \<^verbatim>\<open>hasattr(visitor, method)\<close> and
  \<^verbatim>\<open>getattr(visitor, method)\<close>: a method name gives a handler or nothing. The registry
  \<^verbatim>\<open>BaseASTCheck._checks\<close> holds one object of every check class, in the order of the class
  definitions.
\<close>

type_synonym 'd visitor = "string \<Rightarrow> 'd handler option"

fun check_visitor :: "check \<Rightarrow> diagnostic visitor" where
  "check_visitor ClassNameCheck method =
     (if method = ''visit_classdef'' then Some ClassNameCheck_visit_classdef else None)"
| "check_visitor FunctionNameCheck method =
     (if method = ''visit_functiondef'' then Some FunctionNameCheck_visit_functiondef else None)"
| "check_visitor FunctionArgNamesCheck method =
     (if method = ''visit_functiondef'' then Some FunctionArgNamesCheck_visit_functiondef
      else None)"
| "check_visitor ImportAsCheck method =
     (if method = ''visit_importfrom'' then Some ImportAsCheck_visit_importfrom else None)"
| "check_visitor VariablesInFunctionCheck method =
     (if method = ''visit_assign'' then Some VariablesInFunctionCheck_visit_assign else None)"

definition checks :: "diagnostic visitor list" where
  "checks = map check_visitor
     [ClassNameCheck, FunctionNameCheck, FunctionArgNamesCheck, ImportAsCheck,
      VariablesInFunctionCheck]"

text \<open>
  \<^verbatim>\<open>visit_node\<close> first writes the attributes: on the functions of a class, or on the
  function itself. The node is mutable in Python; here the written node is returned.
\<close>

definition annotate :: "node \<Rightarrow> node" where
  "annotate node =
     (if is_ClassDef node then tag_class_functions node
      else if is_FunctionDef node then find_global_defs node
      else node)"

fun dispatch :: "'d visitor list \<Rightarrow> string \<Rightarrow> 'd handler" where
  "dispatch [] method node parents = Inr []"
| "dispatch (visitor # visitors) method node parents =
     (case visitor method of
        None \<Rightarrow> dispatch visitors method node parents
      | Some h \<Rightarrow> andthen (h node parents) (dispatch visitors method node parents))"

definition visit_node :: "'d visitor list \<Rightarrow> node \<Rightarrow> node list \<Rightarrow> node \<times> (error + 'd list)" where
  "visit_node visitors node parents =
     (let node = annotate node;
          method = ''visit_'' @ lower (class_name node)
      in (node, dispatch visitors method node parents))"

lemma count_tag_function: "count (tag_function late x) = count x"
  by (cases x) simp_all

lemma count_annotate: "count (annotate n) = count n"
proof -
  have tag: "\<And>late xs. map (count \<circ> tag_function late) xs = map count xs"
    by (simp add: count_tag_function)
  show ?thesis
    by (cases n) (simp_all add: annotate_def Let_def tag)
qed

text \<open>
  \<^verbatim>\<open>_run\<close>: the diagnostics of the node, then those of its children with the node pushed
  on \<^verbatim>\<open>self.parents\<close>. A handler that raises ends the traversal with its error.
\<close>

function run' :: "'d visitor list \<Rightarrow> node list \<Rightarrow> node \<Rightarrow> error + 'd list" where
  "run' visitors parents node =
     (let (node', errors) = visit_node visitors node parents
      in andthen errors
           (andthen_all (map (run' visitors (parents @ [node'])) (ast_iter_nodes node'))))"
  by pat_completeness auto
termination
proof (relation "measure (\<lambda>(visitors, parents, node). count node)", goal_cases)
  case 1
  show ?case by simp
next
  case (2 visitors parents node x node' errors child)
  then have "node' = annotate node"
    by (simp add: visit_node_def Let_def)
  with 2 show ?case
    using count_child [of child node'] by (simp add: count_annotate)
qed

declare run'.simps [simp del]

text \<open>\<^verbatim>\<open>run\<close>: the tree is \<open>None\<close> when the source could not be parsed.\<close>

definition run :: "'d visitor list \<Rightarrow> node option \<Rightarrow> error + 'd list" where
  "run visitors tree = (case tree of None \<Rightarrow> Inr [] | Some node \<Rightarrow> run' visitors [] node)"

section \<open>The diagnostic position\<close>

text \<open>
  Claim C6. A diagnostic that \<^verbatim>\<open>_err\<close> builds for a \<^verbatim>\<open>ClassDef\<close> with \<open>d\<close> decorators
  is at the line of the node plus \<open>d\<close> and at its column plus 6; for a \<^verbatim>\<open>FunctionDef\<close>
  with \<open>d\<close> decorators it is at the line plus \<open>d\<close> and at the column plus 4. A class
  below two decorators is so reported at its line plus 2 and its column plus 6.
\<close>

theorem err_decorator_offset:
  "(err self (ClassDef l c n bases body decs) code = Inr (line, col, text, rule) \<longrightarrow>
      line = l + int (length decs) \<and> col = c + 6) \<and>
   (err self (FunctionDef l c n a arg_exprs body decs returns ft gn) code
        = Inr (line', col', text', rule') \<longrightarrow>
      line' = l + int (length decs) \<and> col' = c + 4) \<and>
   (length decs = 2 \<longrightarrow>
      err self (ClassDef l c n bases body decs) code = Inr (line, col, text, rule) \<longrightarrow>
      line = l + 2 \<and> col = c + 6)"
  by (auto simp: err_def Let_def split: sum.splits)

theorem err_decorator_offset_witness:
  "err ClassNameCheck (ClassDef 10 0 ''myClass'' [] [] [Name 8 1 ''a'', Name 9 1 ''b'']) ''E800''
     = Inr (12, 6, ''E800 '' @ E800, ClassNameCheck) \<and>
   err FunctionNameCheck
       (FunctionDef 5 4 ''Fn'' \<lparr>args = [], vararg = None, kwonlyargs = [], kwarg = None\<rparr>
          [] [] [Name 4 5 ''a''] [] None None) ''E801''
     = Inr (6, 8, ''E801 '' @ E801, FunctionNameCheck) \<and>
   (12::int) = 10 + int (length [Name 8 1 ''a'', Name 9 1 ''b'']) \<and> (6::int) = 0 + 6 \<and>
   (6::int) = 5 + int (length [Name 4 5 ''a'']) \<and> (8::int) = 4 + 4"
  using err_decorator_offset [of ClassNameCheck 10 0 "''myClass''" "[]" "[]"
      "[Name 8 1 ''a'', Name 9 1 ''b'']" "''E800''" 12 6
      "''E800 '' @ E800" ClassNameCheck]
  by (simp add: err_def)

section \<open>The absent tree\<close>

text \<open>
  Claim C3. When the tree is absent, \<^verbatim>\<open>run\<close> gives the empty sequence of diagnostics,
  whatever the registry holds, and does not raise.
\<close>

theorem run_absent_tree: "run visitors None = Inr []"
  by (simp add: run_def)

section \<open>The argument names\<close>

text \<open>
  The name of \<^verbatim>\<open>**kwargs\<close> or of \<^verbatim>\<open>*args\<close> is bad when it is there and does not match
  \<^verbatim>\<open>LOWERCASE_REGEX\<close>. The code of a diagnostic is the first word of its text.
\<close>

definition bad_name :: "string option \<Rightarrow> bool" where
  "bad_name k = (case k of None \<Rightarrow> False | Some x \<Rightarrow> \<not> LOWERCASE_REGEX x)"

definition code_of :: "diagnostic \<Rightarrow> string" where
  "code_of d = take 4 (fst (snd (snd d)))"

lemma err_FunctionDef:
  "message self code = Inr text \<Longrightarrow>
   err self (FunctionDef l c n a ae body decs returns ft gn) code
     = Inr (l + int (length decs), c + 4, code @ '' '' @ text, self)"
  by (simp add: err_def)

lemma check_arg_names_eq:
  "check_arg_names (FunctionDef l c n a ae body decs returns ft gn) names =
     Inr (if \<exists>x\<in>set names. \<not> LOWERCASE_REGEX x
          then [(l + int (length decs), c + 4, ''E802 '' @ E802, FunctionArgNamesCheck)]
          else [])"
  by (induction names) (simp_all add: err_FunctionDef yield_def)

lemma first_arg_check_codes:
  "\<exists>ds. first_arg_check (FunctionDef l c n a ae body decs returns ft gn) names = Inr ds \<and>
     (\<forall>d\<in>set ds. code_of d \<noteq> ''E802'')"
  by (simp add: first_arg_check_def err_FunctionDef yield_def code_of_def Let_def)

text \<open>
  Claim C10. One visit of the argument check yields at most one E802 diagnostic: exactly
  one when the name of \<^verbatim>\<open>**kwargs\<close>, the name of \<^verbatim>\<open>*args\<close> or one of the positional
  and keyword-only names is not lowercase, however many of them are not, and none
  otherwise. When the name of \<^verbatim>\<open>**kwargs\<close> or of \<^verbatim>\<open>*args\<close> is the bad one, that E802
  is all the handler yields: it returns before the checks of \<^verbatim>\<open>self\<close> and \<^verbatim>\<open>cls\<close>.
\<close>

theorem arg_names_at_most_one_E802:
  "\<exists>ds. FunctionArgNamesCheck_visit_functiondef
            (FunctionDef l c n a ae body decs returns ft gn) parents = Inr ds \<and>
     length (filter (\<lambda>d. code_of d = ''E802'') ds) =
       (if bad_name (kwarg a) \<or> bad_name (vararg a) \<or>
           (\<exists>x\<in>set (args a @ kwonlyargs a). \<not> LOWERCASE_REGEX x) then 1 else 0) \<and>
     (bad_name (kwarg a) \<or> bad_name (vararg a) \<longrightarrow>
        ds = [(l + int (length decs), c + 4, ''E802 '' @ E802, FunctionArgNamesCheck)])"
proof -
  let ?node = "FunctionDef l c n a ae body decs returns ft gn"
  let ?e = "(l + int (length decs), c + 4, ''E802 '' @ E802, FunctionArgNamesCheck)"
  have e: "code_of ?e = ''E802''" by (simp add: code_of_def)
  consider (kw) "bad_name (kwarg a)"
    | (va) "\<not> bad_name (kwarg a)" "bad_name (vararg a)"
    | (ok) "\<not> bad_name (kwarg a)" "\<not> bad_name (vararg a)"
    by blast
  then show ?thesis
  proof cases
    case kw
    then show ?thesis
      by (simp add: bad_name_def err_FunctionDef yield_def code_of_def split: option.splits)
  next
    case va
    then show ?thesis
      by (simp add: bad_name_def err_FunctionDef yield_def code_of_def split: option.splits)
  next
    case ok
    obtain fs where fs: "first_arg_check ?node (args a @ kwonlyargs a) = Inr fs"
      "\<forall>d\<in>set fs. code_of d \<noteq> ''E802''"
      using first_arg_check_codes by blast
    from fs(2) have nil: "filter (\<lambda>d. code_of d = ''E802'') fs = []"
      by (simp add: filter_empty_conv)
    from ok have g: "\<not> (case kwarg a of None \<Rightarrow> False | Some k \<Rightarrow> \<not> LOWERCASE_REGEX k)"
      "\<not> (case vararg a of None \<Rightarrow> False | Some k \<Rightarrow> \<not> LOWERCASE_REGEX k)"
      by (simp_all add: bad_name_def)
    show ?thesis
      using ok fs(1) nil
      by (simp add: g Let_def check_arg_names_eq andthen_def code_of_def)
  qed
qed

theorem arg_names_at_most_one_E802_witness:
  "FunctionArgNamesCheck_visit_functiondef
     (FunctionDef 2 4 ''m'' \<lparr>args = [''x'', ''Y'', ''Z''], vararg = Some ''Args'', kwonlyargs = [],
        kwarg = None\<rparr> [] [] [] [] (Some ''method'') None) []
   = Inr [(2, 8, ''E802 '' @ E802, FunctionArgNamesCheck)] \<and>
   bad_name (Some ''Args'')"
proof -
  have b: "bad_name (Some ''Args'')"
    by code_simp
  from b arg_names_at_most_one_E802 [of 2 4 "''m''"
      "\<lparr>args = [''x'', ''Y'', ''Z''], vararg = Some ''Args'', kwonlyargs = [], kwarg = None\<rparr>"
      "[]" "[]" "[]" "[]" "Some ''method''" None "[]"]
  show ?thesis by auto
qed

text \<open>
  Claim C7, as the code has it. The claim says that every method whose first positional
  argument is not \<^verbatim>\<open>self\<close> gets the E804 diagnostic, whatever else is wrong with the
  names. The handler returns after the E802 of a bad \<^verbatim>\<open>**kwargs\<close> or \<^verbatim>\<open>*args\<close> name, before
  it looks at the first argument: the method \<^verbatim>\<open>def m(x, **KW)\<close> of a class gets E802 alone.
\<close>

theorem method_self_suppressed_counterexample:
  "function_type
     (FunctionDef 2 4 ''m'' \<lparr>args = [''x''], vararg = None, kwonlyargs = [], kwarg = Some ''KW''\<rparr>
        [] [] [] [] (Some ''method'') (Some {})) = ''method'' \<and>
   hd (args \<lparr>args = [''x''], vararg = None, kwonlyargs = [], kwarg = Some ''KW''\<rparr>) \<noteq> ''self'' \<and>
   FunctionArgNamesCheck_visit_functiondef
     (FunctionDef 2 4 ''m'' \<lparr>args = [''x''], vararg = None, kwonlyargs = [], kwarg = Some ''KW''\<rparr>
        [] [] [] [] (Some ''method'') (Some {})) []
     = Inr [(2, 8, ''E802 '' @ E802, FunctionArgNamesCheck)] \<and>
   run checks (Some (Other ''Module'' [ClassDef 1 0 ''C'' []
     [FunctionDef 2 4 ''m'' \<lparr>args = [''x''], vararg = None, kwonlyargs = [], kwarg = Some ''KW''\<rparr>
        [] [] [] [] None None] []]))
     = Inr [(2, 8, ''E802 '' @ E802, FunctionArgNamesCheck)]"
  by code_simp

text \<open>
  Claim C7, amended. For a method whose first positional argument is not \<^verbatim>\<open>self\<close> and
  whose \<^verbatim>\<open>**kwargs\<close> and \<^verbatim>\<open>*args\<close> names, where present, are lowercase, the handler
  yields E804 first; a positional or keyword-only name that is not lowercase adds the
  E802 diagnostic after it and takes nothing away.
\<close>

theorem method_self_diagnostic:
  assumes "function_type (FunctionDef l c n a ae body decs returns ft gn) = ''method''"
    and "args a \<noteq> []" and "hd (args a) \<noteq> ''self''"
    and "\<not> bad_name (kwarg a)" and "\<not> bad_name (vararg a)"
  shows "FunctionArgNamesCheck_visit_functiondef
           (FunctionDef l c n a ae body decs returns ft gn) parents =
         Inr ((l + int (length decs), c + 4, ''E804 '' @ E804, FunctionArgNamesCheck) #
              (if \<exists>x\<in>set (args a @ kwonlyargs a). \<not> LOWERCASE_REGEX x
               then [(l + int (length decs), c + 4, ''E802 '' @ E802, FunctionArgNamesCheck)]
               else []))"
proof -
  from assms(4,5)
  have g: "\<not> (case kwarg a of None \<Rightarrow> False | Some k \<Rightarrow> \<not> LOWERCASE_REGEX k)"
    "\<not> (case vararg a of None \<Rightarrow> False | Some k \<Rightarrow> \<not> LOWERCASE_REGEX k)"
    by (simp_all add: bad_name_def)
  from assms(2,3) have h: "hd (args a @ kwonlyargs a) \<noteq> ''self''"
    by simp
  have f: "first_arg_check (FunctionDef l c n a ae body decs returns ft gn)
             (args a @ kwonlyargs a)
           = Inr [(l + int (length decs), c + 4, ''E804 '' @ E804, FunctionArgNamesCheck)]"
    using assms(1) h
    by (simp add: first_arg_check_def Let_def err_FunctionDef yield_def del: function_type.simps)
  show ?thesis
    using assms(2)
    by (simp add: g Let_def f check_arg_names_eq andthen_def)
qed

theorem method_self_diagnostic_witness:
  "FunctionArgNamesCheck_visit_functiondef
     (FunctionDef 2 4 ''m'' \<lparr>args = [''X''], vararg = None, kwonlyargs = [], kwarg = None\<rparr>
        [] [] [] [] (Some ''method'') None) []
   = Inr [(2, 8, ''E804 '' @ E804, FunctionArgNamesCheck),
          (2, 8, ''E802 '' @ E802, FunctionArgNamesCheck)]"
proof -
  have l: "\<not> LOWERCASE_REGEX ''X''" by code_simp
  have b: "\<not> bad_name None" by (simp add: bad_name_def)
  from l b method_self_diagnostic [of 2 4 "''m''"
      "\<lparr>args = [''X''], vararg = None, kwonlyargs = [], kwarg = None\<rparr>"
      "[]" "[]" "[]" "[]" "Some ''method''" None "[]"]
  show ?thesis by simp
qed

section \<open>The renamed imports\<close>

text \<open>
  An entry of \<^verbatim>\<open>node.names\<close> is a lowercase name renamed out of the lowercase style when
  it has an \<^verbatim>\<open>asname\<close>, the name matches \<^verbatim>\<open>LOWERCASE_REGEX\<close> and not
  \<^verbatim>\<open>UPPERCASE_REGEX\<close>, and the \<^verbatim>\<open>asname\<close> does not match \<^verbatim>\<open>LOWERCASE_REGEX\<close>.
\<close>

definition lowercase_renamed :: "string \<times> string option \<Rightarrow> bool" where
  "lowercase_renamed name =
     (case snd name of
        None \<Rightarrow> False
      | Some asname \<Rightarrow> asname \<noteq> [] \<and> LOWERCASE_REGEX (fst name) \<and>
          \<not> UPPERCASE_REGEX (fst name) \<and> \<not> LOWERCASE_REGEX asname)"

text \<open>
  Claim C8, as the code has it. The claim gives W801 to every lowercase name with an alias
  that is not lowercase. The handler tests \<^verbatim>\<open>check_upper(name.name)\<close> first, and a name of
  underscores and digits matches both patterns: \<^verbatim>\<open>from m import _ as T\<close> yields nothing,
  and \<^verbatim>\<open>from m import _ as Tr\<close> yields W800.
\<close>

theorem import_lowercase_counterexample:
  "LOWERCASE_REGEX ''_'' \<and> \<not> LOWERCASE_REGEX ''T'' \<and>
   ImportAsCheck_visit_importfrom (ImportFrom 1 0 [(''_'', Some ''T'')]) [] = Inr [] \<and>
   run checks (Some (Other ''Module'' [ImportFrom 1 0 [(''_'', Some ''T'')]])) = Inr [] \<and>
   \<not> LOWERCASE_REGEX ''Tr'' \<and>
   ImportAsCheck_visit_importfrom (ImportFrom 1 0 [(''_'', Some ''Tr'')]) []
     = Inr [(1, 0, ''W800 '' @ W800, ImportAsCheck)]"
  by code_simp

lemma err_ImportFrom:
  "message self code = Inr text \<Longrightarrow>
   err self (ImportFrom l c names) code = Inr (l, c, code @ '' '' @ text, self)"
  by (simp add: err_def)

lemma import_as_name_W801:
  "\<exists>ds. import_as_name (ImportFrom l c names) name = Inr ds \<and>
     filter (\<lambda>d. code_of d = ''W801'') ds =
       (if lowercase_renamed name then [(l, c, ''W801 '' @ W801, ImportAsCheck)] else [])"
  by (cases name)
     (simp add: import_as_name_def lowercase_renamed_def err_ImportFrom yield_def code_of_def
        split: option.splits)

lemma import_names_W801:
  "\<exists>ds. andthen_all (map (import_as_name (ImportFrom l c names)) xs) = Inr ds \<and>
     filter (\<lambda>d. code_of d = ''W801'') ds =
       replicate (length (filter lowercase_renamed xs)) (l, c, ''W801 '' @ W801, ImportAsCheck)"
proof (induction xs)
  case Nil
  show ?case by simp
next
  case (Cons x xs)
  from Cons obtain ds where ds:
    "andthen_all (map (import_as_name (ImportFrom l c names)) xs) = Inr ds"
    "filter (\<lambda>d. code_of d = ''W801'') ds =
       replicate (length (filter lowercase_renamed xs)) (l, c, ''W801 '' @ W801, ImportAsCheck)"
    by blast
  obtain d where d: "import_as_name (ImportFrom l c names) x = Inr d"
    "filter (\<lambda>d. code_of d = ''W801'') d =
       (if lowercase_renamed x then [(l, c, ''W801 '' @ W801, ImportAsCheck)] else [])"
    using import_as_name_W801 by blast
  show ?case
    by (simp add: ds d andthen_def)
qed

text \<open>
  Claim C8, amended. The handler yields one W801 diagnostic, at the position of the
  \<^verbatim>\<open>ImportFrom\<close> node, for every entry whose name is lowercase and not uppercase and whose
  alias is not lowercase, and no other W801; for \<^verbatim>\<open>from os import getcwd as GETCWD\<close> it
  yields that diagnostic and nothing else.
\<close>

theorem import_lowercase_renamed:
  "(\<exists>ds. ImportAsCheck_visit_importfrom (ImportFrom l c names) parents = Inr ds \<and>
      filter (\<lambda>d. code_of d = ''W801'') ds =
        replicate (length (filter lowercase_renamed names))
          (l, c, ''W801 '' @ W801, ImportAsCheck)) \<and>
   ImportAsCheck_visit_importfrom (ImportFrom l c [(''getcwd'', Some ''GETCWD'')]) parents
     = Inr [(l, c, ''W801 '' @ W801, ImportAsCheck)]"
proof
  show "\<exists>ds. ImportAsCheck_visit_importfrom (ImportFrom l c names) parents = Inr ds \<and>
      filter (\<lambda>d. code_of d = ''W801'') ds =
        replicate (length (filter lowercase_renamed names))
          (l, c, ''W801 '' @ W801, ImportAsCheck)"
    using import_names_W801 [of l c names names] by simp
next
  have u: "\<not> UPPERCASE_REGEX ''getcwd''" by code_simp
  have lo: "LOWERCASE_REGEX ''getcwd''" by code_simp
  have a: "\<not> LOWERCASE_REGEX ''GETCWD''" by code_simp
  show "ImportAsCheck_visit_importfrom (ImportFrom l c [(''getcwd'', Some ''GETCWD'')]) parents
     = Inr [(l, c, ''W801 '' @ W801, ImportAsCheck)]"
    by (simp add: import_as_name_def u lo a err_ImportFrom yield_def andthen_def)
qed

theorem import_lowercase_renamed_witness:
  "lowercase_renamed (''getcwd'', Some ''GETCWD'') \<and>
   ImportAsCheck_visit_importfrom
     (ImportFrom 3 0 [(''path'', None), (''getcwd'', Some ''GETCWD''), (''sep'', Some ''Sep'')]) []
   = Inr [(3, 0, ''W801 '' @ W801, ImportAsCheck), (3, 0, ''W801 '' @ W801, ImportAsCheck)] \<and>
   run checks (Some (Other ''Module'' [ImportFrom 1 0 [(''getcwd'', Some ''GETCWD'')]]))
   = Inr [(1, 0, ''W801 '' @ W801, ImportAsCheck)]"
proof -
  have r: "lowercase_renamed (''getcwd'', Some ''GETCWD'')"
    by code_simp
  have m: "run checks (Some (Other ''Module'' [ImportFrom 1 0 [(''getcwd'', Some ''GETCWD'')]]))
    = Inr [(1, 0, ''W801 '' @ W801, ImportAsCheck)]"
    by code_simp
  have v: "ImportAsCheck_visit_importfrom
     (ImportFrom 3 0 [(''path'', None), (''getcwd'', Some ''GETCWD''), (''sep'', Some ''Sep'')]) []
   = Inr [(3, 0, ''W801 '' @ W801, ImportAsCheck), (3, 0, ''W801 '' @ W801, ImportAsCheck)]"
    by code_simp
  from import_lowercase_renamed [of 3 0
      "[(''path'', None), (''getcwd'', Some ''GETCWD''), (''sep'', Some ''Sep'')]" "[]"] r m v
  show ?thesis by simp
qed

section \<open>The local variables\<close>

text \<open>
  Claim C9. An assignment to one plain name, below a function that is the nearest function
  or class among its ancestors, where the name is not lowercase and does not begin with an
  underscore: the handler yields exactly one diagnostic, at the target, when the name is
  not in the \<^verbatim>\<open>global_names\<close> of that function, and none when it is. So \<^verbatim>\<open>X = 5\<close> in a
  function is reported once, and not at all after \<^verbatim>\<open>global X\<close> in that function.
\<close>

theorem local_variable_diagnostic:
  assumes "find_parent_func (rev parents) = Some parent_func"
    and "global_names_attr parent_func = Inr g"
    and "name \<noteq> []" and "\<not> LOWERCASE_REGEX name" and "take 1 name \<noteq> ''_''"
  shows "VariablesInFunctionCheck_visit_assign (Assign l c [Name l' c' name] v) parents =
           Inr (if name \<in> g then []
                else [(l', c', ''E805 '' @ E805, VariablesInFunctionCheck)])"
  using assms by (simp add: err_def yield_def andthen_def)

theorem local_variable_diagnostic_witness:
  "VariablesInFunctionCheck_visit_assign (Assign 2 4 [Name 2 4 ''X''] (Other ''Num'' []))
     [Other ''Module'' [],
      FunctionDef 1 0 ''f'' \<lparr>args = [], vararg = None, kwonlyargs = [], kwarg = None\<rparr>
        [] [Assign 2 4 [Name 2 4 ''X''] (Other ''Num'' [])] [] [] None (Some {})]
     = Inr [(2, 4, ''E805 '' @ E805, VariablesInFunctionCheck)] \<and>
   VariablesInFunctionCheck_visit_assign (Assign 3 4 [Name 3 4 ''X''] (Other ''Num'' []))
     [Other ''Module'' [],
      FunctionDef 1 0 ''f'' \<lparr>args = [], vararg = None, kwonlyargs = [], kwarg = None\<rparr>
        [] [Global 2 4 [''X''], Assign 3 4 [Name 3 4 ''X''] (Other ''Num'' [])] [] [] None
        (Some {''X''})]
     = Inr [] \<and>
   run checks (Some (Other ''Module''
     [FunctionDef 1 0 ''f'' \<lparr>args = [], vararg = None, kwonlyargs = [], kwarg = None\<rparr>
        [] [Assign 2 4 [Name 2 4 ''X''] (Other ''Num'' [])] [] [] None None]))
     = Inr [(2, 4, ''E805 '' @ E805, VariablesInFunctionCheck)] \<and>
   run checks (Some (Other ''Module''
     [FunctionDef 1 0 ''f'' \<lparr>args = [], vararg = None, kwonlyargs = [], kwarg = None\<rparr>
        [] [Global 2 4 [''X''], Assign 3 4 [Name 3 4 ''X''] (Other ''Num'' [])] [] [] None None]))
     = Inr []"
proof -
  have x: "\<not> LOWERCASE_REGEX ''X''" by code_simp
  have r1: "run checks (Some (Other ''Module''
     [FunctionDef 1 0 ''f'' \<lparr>args = [], vararg = None, kwonlyargs = [], kwarg = None\<rparr>
        [] [Assign 2 4 [Name 2 4 ''X''] (Other ''Num'' [])] [] [] None None]))
     = Inr [(2, 4, ''E805 '' @ E805, VariablesInFunctionCheck)]"
    by code_simp
  have r2: "run checks (Some (Other ''Module''
     [FunctionDef 1 0 ''f'' \<lparr>args = [], vararg = None, kwonlyargs = [], kwarg = None\<rparr>
        [] [Global 2 4 [''X''], Assign 3 4 [Name 3 4 ''X''] (Other ''Num'' [])] [] [] None None]))
     = Inr []"
    by code_simp
  have a: "VariablesInFunctionCheck_visit_assign (Assign 2 4 [Name 2 4 ''X''] (Other ''Num'' []))
     [Other ''Module'' [],
      FunctionDef 1 0 ''f'' \<lparr>args = [], vararg = None, kwonlyargs = [], kwarg = None\<rparr>
        [] [Assign 2 4 [Name 2 4 ''X''] (Other ''Num'' [])] [] [] None (Some {})]
     = Inr [(2, 4, ''E805 '' @ E805, VariablesInFunctionCheck)]"
    using x local_variable_diagnostic [of
      "[Other ''Module'' [],
      FunctionDef 1 0 ''f'' \<lparr>args = [], vararg = None, kwonlyargs = [], kwarg = None\<rparr>
        [] [Assign 2 4 [Name 2 4 ''X''] (Other ''Num'' [])] [] [] None (Some {})]"
      "FunctionDef 1 0 ''f'' \<lparr>args = [], vararg = None, kwonlyargs = [], kwarg = None\<rparr>
        [] [Assign 2 4 [Name 2 4 ''X''] (Other ''Num'' [])] [] [] None (Some {})"
      "{}" "''X''" 2 4 2 4 "Other ''Num'' []"]
    by simp
  have b: "VariablesInFunctionCheck_visit_assign (Assign 3 4 [Name 3 4 ''X''] (Other ''Num'' []))
     [Other ''Module'' [],
      FunctionDef 1 0 ''f'' \<lparr>args = [], vararg = None, kwonlyargs = [], kwarg = None\<rparr>
        [] [Global 2 4 [''X''], Assign 3 4 [Name 3 4 ''X''] (Other ''Num'' [])] [] [] None
        (Some {''X''})]
     = Inr []"
    using x local_variable_diagnostic [of
      "[Other ''Module'' [],
      FunctionDef 1 0 ''f'' \<lparr>args = [], vararg = None, kwonlyargs = [], kwarg = None\<rparr>
        [] [Global 2 4 [''X''], Assign 3 4 [Name 3 4 ''X''] (Other ''Num'' [])] [] [] None
        (Some {''X''})]"
      "FunctionDef 1 0 ''f'' \<lparr>args = [], vararg = None, kwonlyargs = [], kwarg = None\<rparr>
        [] [Global 2 4 [''X''], Assign 3 4 [Name 3 4 ''X''] (Other ''Num'' [])] [] [] None
        (Some {''X''})"
      "{''X''}" "''X''" 3 4 3 4 "Other ''Num'' []"]
    by simp
  from a b r1 r2 show ?thesis by blast
qed

section \<open>The roles of the functions of a class\<close>

text \<open>
  What one child of a class adds to \<^verbatim>\<open>late_decoration\<close>: the name of the wrapped function
  and the wrapper, for an assignment of \<^verbatim>\<open>classmethod(f)\<close> or \<^verbatim>\<open>staticmethod(f)\<close>.
\<close>

fun late_decorator :: "node \<Rightarrow> (string \<times> string) option" where
  "late_decorator (Assign l c targets (Call l' c' (Name l'' c'' func_name) [Name l3 c3 meth_id] ks)) =
     (if func_name = ''classmethod'' \<or> func_name = ''staticmethod''
      then Some (meth_id, func_name) else None)"
| "late_decorator other = None"

lemma late_decoration_step_eq:
  "late_decoration_step m x =
     (case late_decorator x of None \<Rightarrow> m | Some (k, v) \<Rightarrow> m(k \<mapsto> v))"
  by (induction m x rule: late_decoration_step.induct) (auto split: list.splits node.splits)

lemma foldl_step_other:
  "\<forall>y\<in>set post. \<forall>w'. late_decorator y \<noteq> Some (f, w') \<Longrightarrow>
   foldl late_decoration_step m post f = m f"
  by (induction post arbitrary: m) (auto simp: late_decoration_step_eq split: option.splits)

lemma late_decorations_last:
  assumes "late_decorator x = Some (f, w)"
    and "\<forall>y\<in>set post. \<forall>w'. late_decorator y \<noteq> Some (f, w')"
  shows "late_decorations (pre @ x # post) f = Some w"
  using assms by (simp add: late_decorations_def foldl_step_other late_decoration_step_eq)

lemma late_decorator_wrapper:
  "late_decorator x = Some (f, w) \<Longrightarrow> w = ''classmethod'' \<or> w = ''staticmethod''"
  by (induction x rule: late_decorator.induct) (auto split: if_splits)

lemma children_tag_class_functions:
  "ast_iter_nodes (tag_class_functions (ClassDef l c n bases body decs)) =
     map (tag_function (late_decorations (ast_iter_nodes (ClassDef l c n bases body decs))))
       (ast_iter_nodes (ClassDef l c n bases body decs))"
  by (simp add: Let_def)

text \<open>
  Claim C1, as the code has it. The claim gives the role StaticMethod to \<open>f\<close> whenever the
  class body holds \<^verbatim>\<open>f = staticmethod(f)\<close>. \<^verbatim>\<open>late_decoration\<close> is a dictionary, and a later
  assignment that wraps \<open>f\<close> takes the entry over: after \<^verbatim>\<open>f = staticmethod(f)\<close> and then
  \<^verbatim>\<open>f = classmethod(f)\<close> the role is \<^verbatim>\<open>classmethod\<close>.
\<close>

theorem late_decoration_counterexample:
  "tag_class_functions
     (ClassDef 1 0 ''C'' []
        [FunctionDef 2 4 ''f'' \<lparr>args = [''x''], vararg = None, kwonlyargs = [], kwarg = None\<rparr>
           [] [] [] [] None None,
         Assign 3 4 [Name 3 4 ''f'']
           (Call 3 8 (Name 3 8 ''staticmethod'') [Name 3 21 ''f''] []),
         Assign 4 4 [Name 4 4 ''f'']
           (Call 4 8 (Name 4 8 ''classmethod'') [Name 4 20 ''f''] [])] [])
   = ClassDef 1 0 ''C'' []
        [FunctionDef 2 4 ''f'' \<lparr>args = [''x''], vararg = None, kwonlyargs = [], kwarg = None\<rparr>
           [] [] [] [] (Some ''classmethod'') None,
         Assign 3 4 [Name 3 4 ''f'']
           (Call 3 8 (Name 3 8 ''staticmethod'') [Name 3 21 ''f''] []),
         Assign 4 4 [Name 4 4 ''f'']
           (Call 4 8 (Name 4 8 ''classmethod'') [Name 4 20 ''f''] [])] []"
  by code_simp

text \<open>
  Claim C1, amended. When the last child of the class that wraps \<open>f\<close> in \<^verbatim>\<open>classmethod\<close> or
  \<^verbatim>\<open>staticmethod\<close> by assignment uses the wrapper \<open>w\<close>, every function named \<open>f\<close> among
  the children gets the role \<open>w\<close>, whatever its decorators are: the same role as the bare
  decorator \<open>w\<close> alone gives to a function that no assignment wraps.
\<close>

theorem late_decoration_role:
  assumes "ast_iter_nodes (ClassDef l c n bases body decs) = pre @ x # post"
    and "late_decorator x = Some (f, w)"
    and "\<forall>y\<in>set post. \<forall>w'. late_decorator y \<noteq> Some (f, w')"
  shows "ast_iter_nodes (tag_class_functions (ClassDef l c n bases body decs)) =
           map (tag_function (late_decorations (pre @ x # post))) (pre @ x # post) \<and>
         tag_function (late_decorations (pre @ x # post))
             (FunctionDef l' c' f a ae fbody fdecs rets ft gn)
           = FunctionDef l' c' f a ae fbody fdecs rets (Some w) gn \<and>
         (w = ''classmethod'' \<or> w = ''staticmethod'') \<and>
         (late f = None \<longrightarrow>
            tag_function late (FunctionDef l' c' f a ae fbody [Name dl dc w] rets ft gn)
              = FunctionDef l' c' f a ae fbody [Name dl dc w] rets (Some w) gn)"
proof -
  have 1: "ast_iter_nodes (tag_class_functions (ClassDef l c n bases body decs)) =
           map (tag_function (late_decorations (pre @ x # post))) (pre @ x # post)"
    using children_tag_class_functions [of l c n bases body decs] unfolding assms(1) .
  have 2: "late_decorations (pre @ x # post) f = Some w"
    using assms(2,3) by (rule late_decorations_last)
  have 3: "w = ''classmethod'' \<or> w = ''staticmethod''"
    using assms(2) by (rule late_decorator_wrapper)
  from 3 have 4: "late f = None \<longrightarrow>
            tag_function late (FunctionDef l' c' f a ae fbody [Name dl dc w] rets ft gn)
              = FunctionDef l' c' f a ae fbody [Name dl dc w] rets (Some w) gn"
    by auto
  from 1 2 3 4 show ?thesis by simp
qed

theorem late_decoration_role_witness:
  "tag_class_functions
     (ClassDef 1 0 ''C'' []
        [FunctionDef 2 4 ''f'' \<lparr>args = [''x''], vararg = None, kwonlyargs = [], kwarg = None\<rparr>
           [] [] [Name 1 5 ''classmethod''] [] None None,
         Assign 3 4 [Name 3 4 ''f'']
           (Call 3 8 (Name 3 8 ''staticmethod'') [Name 3 21 ''f''] [])] [])
   = ClassDef 1 0 ''C'' []
        [FunctionDef 2 4 ''f'' \<lparr>args = [''x''], vararg = None, kwonlyargs = [], kwarg = None\<rparr>
           [] [] [Name 1 5 ''classmethod''] [] (Some ''staticmethod'') None,
         Assign 3 4 [Name 3 4 ''f'']
           (Call 3 8 (Name 3 8 ''staticmethod'') [Name 3 21 ''f''] [])] [] \<and>
   tag_function Map.empty
     (FunctionDef 2 4 ''f'' \<lparr>args = [''x''], vararg = None, kwonlyargs = [], kwarg = None\<rparr>
           [] [] [Name 1 5 ''staticmethod''] [] None None)
   = FunctionDef 2 4 ''f'' \<lparr>args = [''x''], vararg = None, kwonlyargs = [], kwarg = None\<rparr>
           [] [] [Name 1 5 ''staticmethod''] [] (Some ''staticmethod'') None"
proof -
  let ?f = "FunctionDef 2 4 ''f'' \<lparr>args = [''x''], vararg = None, kwonlyargs = [], kwarg = None\<rparr>
           [] [] [Name 1 5 ''classmethod''] [] None None"
  let ?x = "Assign 3 4 [Name 3 4 ''f'']
           (Call 3 8 (Name 3 8 ''staticmethod'') [Name 3 21 ''f''] [])"
  have a: "ast_iter_nodes (ClassDef 1 0 ''C'' [] [?f, ?x] []) = [?f] @ ?x # []"
    by simp
  have b: "late_decorator ?x = Some (''f'', ''staticmethod'')"
    by simp
  have c: "\<forall>y\<in>set []. \<forall>w'. late_decorator y \<noteq> Some (''f'', w')"
    by simp
  from late_decoration_role [OF a b c, of 2 4
      "\<lparr>args = [''x''], vararg = None, kwonlyargs = [], kwarg = None\<rparr>" "[]" "[]"
      "[Name 1 5 ''classmethod'']" "[]" None None Map.empty 1 5]
  show ?thesis by (simp add: Let_def)
qed

section \<open>The global names of a function\<close>

text \<open>
  The specification of \<^verbatim>\<open>find_global_defs\<close>, in its own words: the names that the
  \<^verbatim>\<open>global\<close> declarations at or below a node list, where the search does not go below a
  function or a class.
\<close>

function reachable_globals :: "node \<Rightarrow> string set" where
  "reachable_globals node =
     names_of_global node \<union>
     (if is_FunctionDef node \<or> is_ClassDef node then {}
      else (\<Union>child\<in>set (ast_iter_nodes node). reachable_globals child))"
  by pat_completeness auto
termination
  by (relation "measure count") (auto simp: count_child)

declare reachable_globals.simps [simp del]

lemma global_loop_reachable:
  "global_loop g stack = g \<union> (\<Union>node\<in>set stack. reachable_globals node)"
proof (induction g stack rule: global_loop.induct)
  case (1 g stack)
  show ?case
  proof (cases "stack = []")
    case True
    then show ?thesis by (simp add: global_loop.simps)
  next
    case False
    let ?node = "last stack"
    let ?rest = "butlast stack"
    let ?next = "if \<not> (is_FunctionDef ?node \<or> is_ClassDef ?node)
                 then ?rest @ ast_iter_nodes ?node else ?rest"
    from False have "stack = ?rest @ [?node]"
      by simp
    then have "set stack = set (?rest @ [?node])"
      by (rule arg_cong)
    then have split: "set stack = insert ?node (set ?rest)"
      by simp
    have step: "global_loop g stack = global_loop (g \<union> names_of_global ?node) ?next"
      using False by (subst global_loop.simps) (simp add: Let_def)
    have ih: "global_loop (g \<union> names_of_global ?node) ?next =
        (g \<union> names_of_global ?node) \<union> (\<Union>node\<in>set ?next. reachable_globals node)"
      using False by (intro "1.IH") (simp_all add: Let_def)
    have node: "(\<Union>node\<in>set ?next. reachable_globals node) \<union> names_of_global ?node =
        (\<Union>node\<in>set ?rest. reachable_globals node) \<union> reachable_globals ?node"
      by (subst (3) reachable_globals.simps) auto
    have "global_loop g stack =
        g \<union> ((\<Union>node\<in>set ?next. reachable_globals node) \<union> names_of_global ?node)"
      unfolding step ih by (simp only: Un_ac)
    also have "\<dots> = g \<union> ((\<Union>node\<in>set ?rest. reachable_globals node) \<union> reachable_globals ?node)"
      by (simp only: node)
    also have "\<dots> = g \<union> (\<Union>node\<in>set stack. reachable_globals node)"
      unfolding split by (simp add: Un_ac)
    finally show ?thesis .
  qed
qed

text \<open>
  Claim C2, as the code has it. The claim ends: a name that a function nested in \<open>outer\<close>
  declares global is not in the set of \<open>outer\<close>. It is there when \<open>outer\<close> declares the same
  name itself, as in \<^verbatim>\<open>def outer(): global x; def inner(): global x\<close>.
\<close>

theorem nested_global_counterexample:
  "find_global_defs
     (FunctionDef 1 0 ''outer'' \<lparr>args = [], vararg = None, kwonlyargs = [], kwarg = None\<rparr> []
        [Global 2 4 [''x''],
         FunctionDef 3 4 ''inner'' \<lparr>args = [], vararg = None, kwonlyargs = [], kwarg = None\<rparr> []
           [Global 4 8 [''x'']] [] [] None None]
        [] [] None None)
   = FunctionDef 1 0 ''outer'' \<lparr>args = [], vararg = None, kwonlyargs = [], kwarg = None\<rparr> []
        [Global 2 4 [''x''],
         FunctionDef 3 4 ''inner'' \<lparr>args = [], vararg = None, kwonlyargs = [], kwarg = None\<rparr> []
           [Global 4 8 [''x'']] [] [] None None]
        [] [] None (Some {''x''})"
  by code_simp

text \<open>
  Claim C2, amended. The set that \<^verbatim>\<open>find_global_defs\<close> writes on a function is exactly the
  set of the names listed by the \<^verbatim>\<open>global\<close> declarations that are reached from its
  children without going below a nested function or class; a nested function or class
  adds no name to it, so a name declared global only inside one is not in the set.
\<close>

theorem find_global_defs_reachable:
  "find_global_defs (FunctionDef l c n a ae body decs rets ft gn) =
     FunctionDef l c n a ae body decs rets ft
       (Some (\<Union>child\<in>set (ast_iter_nodes (FunctionDef l c n a ae body decs rets ft gn)).
                reachable_globals child)) \<and>
   reachable_globals (FunctionDef l' c' n' a' ae' body' decs' rets' ft' gn') = {} \<and>
   reachable_globals (ClassDef l'' c'' n'' bases'' body'' decs'') = {}"
proof -
  have "global_loop {} (ast_iter_nodes (FunctionDef l c n a ae body decs rets ft gn)) =
      (\<Union>child\<in>set (ast_iter_nodes (FunctionDef l c n a ae body decs rets ft gn)).
         reachable_globals child)"
    by (simp only: global_loop_reachable Un_empty_left)
  then have 1: "find_global_defs (FunctionDef l c n a ae body decs rets ft gn) =
     FunctionDef l c n a ae body decs rets ft
       (Some (\<Union>child\<in>set (ast_iter_nodes (FunctionDef l c n a ae body decs rets ft gn)).
                reachable_globals child))"
    by (simp only: find_global_defs.simps Let_def)
  have 2: "reachable_globals (FunctionDef l' c' n' a' ae' body' decs' rets' ft' gn') = {}"
    by (subst reachable_globals.simps) simp
  have 3: "reachable_globals (ClassDef l'' c'' n'' bases'' body'' decs'') = {}"
    by (subst reachable_globals.simps) simp
  from 1 2 3 show ?thesis by blast
qed

theorem find_global_defs_reachable_witness:
  "find_global_defs
     (FunctionDef 1 0 ''outer'' \<lparr>args = [], vararg = None, kwonlyargs = [], kwarg = None\<rparr> []
        [Global 2 4 [''y''],
         Other ''If'' [Name 3 7 ''y'', Global 4 8 [''z'']],
         FunctionDef 5 4 ''inner'' \<lparr>args = [], vararg = None, kwonlyargs = [], kwarg = None\<rparr> []
           [Global 6 8 [''x'']] [] [] None None]
        [] [] None None)
   = FunctionDef 1 0 ''outer'' \<lparr>args = [], vararg = None, kwonlyargs = [], kwarg = None\<rparr> []
        [Global 2 4 [''y''],
         Other ''If'' [Name 3 7 ''y'', Global 4 8 [''z'']],
         FunctionDef 5 4 ''inner'' \<lparr>args = [], vararg = None, kwonlyargs = [], kwarg = None\<rparr> []
           [Global 6 8 [''x'']] [] [] None None]
        [] [] None (Some {''y'', ''z''})"
proof -
  have r: "(\<Union>child\<in>set (ast_iter_nodes
      (FunctionDef 1 0 ''outer'' \<lparr>args = [], vararg = None, kwonlyargs = [], kwarg = None\<rparr> []
        [Global 2 4 [''y''],
         Other ''If'' [Name 3 7 ''y'', Global 4 8 [''z'']],
         FunctionDef 5 4 ''inner'' \<lparr>args = [], vararg = None, kwonlyargs = [], kwarg = None\<rparr> []
           [Global 6 8 [''x'']] [] [] None None]
        [] [] None None)). reachable_globals child) = {''y'', ''z''}"
    by code_simp
  from find_global_defs_reachable [of 1 0 "''outer''"
      "\<lparr>args = [], vararg = None, kwonlyargs = [], kwarg = None\<rparr>" "[]"
      "[Global 2 4 [''y''],
         Other ''If'' [Name 3 7 ''y'', Global 4 8 [''z'']],
         FunctionDef 5 4 ''inner'' \<lparr>args = [], vararg = None, kwonlyargs = [], kwarg = None\<rparr> []
           [Global 6 8 [''x'']] [] [] None None]" "[]" "[]" None None]
  show ?thesis unfolding r by blast
qed

section \<open>The order of the diagnostics\<close>

text \<open>
  To state the order, the traversal is run once more with every diagnostic labelled: the
  path of its node from the root (the index of the child taken at every step) and the
  index of the visitor in the registry. \<open>run_labelled\<close> is \<^verbatim>\<open>_run\<close> with the labels added
  and nothing else changed, as \<open>unlabelled_run\<close> shows.
\<close>

type_synonym label = "nat list \<times> nat"

definition labelled :: "label \<Rightarrow> error + 'd list \<Rightarrow> error + (label \<times> 'd) list" where
  "labelled lab r = (case r of Inl e \<Rightarrow> Inl e | Inr ds \<Rightarrow> Inr (map (Pair lab) ds))"

fun dispatch_labelled ::
  "'d visitor list \<Rightarrow> nat \<Rightarrow> string \<Rightarrow> nat list \<Rightarrow> node \<Rightarrow> node list
     \<Rightarrow> error + (label \<times> 'd) list" where
  "dispatch_labelled [] i method path node parents = Inr []"
| "dispatch_labelled (visitor # visitors) i method path node parents =
     (case visitor method of
        None \<Rightarrow> dispatch_labelled visitors (Suc i) method path node parents
      | Some h \<Rightarrow>
          andthen (labelled (path, i) (h node parents))
            (dispatch_labelled visitors (Suc i) method path node parents))"

function run_labelled ::
  "'d visitor list \<Rightarrow> nat list \<Rightarrow> node list \<Rightarrow> node \<Rightarrow> error + (label \<times> 'd) list" where
  "run_labelled visitors path parents node =
     (let node' = annotate node;
          method = ''visit_'' @ lower (class_name node')
      in andthen (dispatch_labelled visitors 0 method path node' parents)
           (andthen_all
              (map (\<lambda>(k, child). run_labelled visitors (path @ [k]) (parents @ [node']) child)
                 (enumerate 0 (ast_iter_nodes node')))))"
  by pat_completeness auto
termination
proof (relation "measure (\<lambda>(visitors, path, parents, node). count node)", goal_cases)
  case 1
  show ?case by simp
next
  case (2 visitors path parents node node' meth kc k child)
  then have "child \<in> set (ast_iter_nodes (annotate node))"
    by (auto simp: in_set_enumerate_eq)
  then show ?case
    using count_child [of child "annotate node"] by (simp add: count_annotate)
qed

declare run_labelled.simps [simp del]

definition unlabelled :: "error + (label \<times> 'd) list \<Rightarrow> error + 'd list" where
  "unlabelled r = (case r of Inl e \<Rightarrow> Inl e | Inr ls \<Rightarrow> Inr (map snd ls))"

lemma unlabelled_andthen:
  "unlabelled (andthen a b) = andthen (unlabelled a) (unlabelled b)"
  by (simp add: unlabelled_def andthen_def split: sum.splits)

lemma unlabelled_labelled: "unlabelled (labelled lab r) = r"
  by (simp add: unlabelled_def labelled_def comp_def split: sum.splits)

lemma unlabelled_andthen_all:
  "unlabelled (andthen_all rs) = andthen_all (map unlabelled rs)"
  by (induction rs) (simp_all add: unlabelled_andthen, simp add: unlabelled_def)

lemma unlabelled_dispatch:
  "unlabelled (dispatch_labelled visitors i method path node parents) =
     dispatch visitors method node parents"
  by (induction visitors arbitrary: i)
     (simp_all add: unlabelled_andthen unlabelled_labelled split: option.splits,
      simp add: unlabelled_def)

lemma unlabelled_run:
  "unlabelled (run_labelled visitors path parents node) = run' visitors parents node"
proof (induction visitors path parents node rule: run_labelled.induct)
  case (1 visitors path parents node)
  let ?node = "annotate node"
  have kids: "map (\<lambda>x. unlabelled (case x of (k, child) \<Rightarrow>
                  run_labelled visitors (path @ [k]) (parents @ [?node]) child))
                (enumerate 0 (ast_iter_nodes ?node))
              = map (run' visitors (parents @ [?node])) (ast_iter_nodes ?node)"
  proof -
    have "map (\<lambda>x. unlabelled (case x of (k, child) \<Rightarrow>
                  run_labelled visitors (path @ [k]) (parents @ [?node]) child))
                (enumerate 0 (ast_iter_nodes ?node))
          = map (\<lambda>x. run' visitors (parents @ [?node]) (snd x))
                (enumerate 0 (ast_iter_nodes ?node))"
      by (rule map_cong) (auto simp: "1.IH")
    also have "\<dots> = map (run' visitors (parents @ [?node])) (map snd (enumerate 0 (ast_iter_nodes ?node)))"
      by (simp only: map_map comp_def)
    finally show ?thesis by simp
  qed
  show ?case
    by (subst run_labelled.simps, subst run'.simps)
       (simp add: Let_def visit_node_def unlabelled_andthen unlabelled_andthen_all
          unlabelled_dispatch kids comp_def)
qed

text \<open>
  Paths are ordered as lists (a path comes before its extensions, and two paths that part
  are ordered by the index where they part), labels as pairs: this is the order in which a
  walk in pre-order that calls the visitors in registry order at every node meets them.
\<close>

lemma path_less_child: "(p::nat list) < p @ k # r"
  by (simp add: list_less_def lexord_append_rightI)

lemma path_less_sibling: "k < k' \<Longrightarrow> (p::nat list) @ k # r < p @ k' # r'"
  by (simp add: list_less_def lexord_append_left_rightI)

lemma andthen_Inr:
  "andthen a b = Inr ds \<longleftrightarrow> (\<exists>xs ys. a = Inr xs \<and> b = Inr ys \<and> ds = xs @ ys)"
  by (auto simp: andthen_def split: sum.splits)

lemma labelled_Inr:
  "labelled lab r = Inr ls \<longleftrightarrow> (\<exists>ds. r = Inr ds \<and> ls = map (Pair lab) ds)"
  by (auto simp: labelled_def split: sum.splits)

lemma dispatch_labelled_sorted:
  "dispatch_labelled visitors i method path node parents = Inr ls \<Longrightarrow>
   sorted (map fst ls) \<and> (\<forall>l\<in>set ls. fst (fst l) = path \<and> i \<le> snd (fst l))"
proof (induction visitors arbitrary: i ls)
  case Nil
  then show ?case by simp
next
  case (Cons visitor visitors)
  show ?case
  proof (cases "visitor method")
    case None
    with Cons.prems
    have "dispatch_labelled visitors (Suc i) method path node parents = Inr ls"
      by simp
    from Cons.IH [OF this] show ?thesis by auto
  next
    case (Some h)
    with Cons.prems obtain ds ys where
      ds: "h node parents = Inr ds" and
      ys: "dispatch_labelled visitors (Suc i) method path node parents = Inr ys" and
      ls: "ls = map (Pair (path, i)) ds @ ys"
      by (auto simp: andthen_Inr labelled_Inr)
    from Cons.IH [OF ys]
    have s: "sorted (map fst ys)" and
      b: "\<forall>l\<in>set ys. fst (fst l) = path \<and> Suc i \<le> snd (fst l)"
      by auto
    have own: "map fst (map (Pair (path, i)) ds) = replicate (length ds) (path, i)"
      by (simp add: comp_def map_replicate_const)
    have "sorted (replicate (length ds) (path, i) @ map fst ys)"
      using s b by (auto simp: sorted_append less_eq_prod_def)
    then have "sorted (map fst ls)"
      unfolding ls map_append own .
    moreover have "\<forall>l\<in>set ls. fst (fst l) = path \<and> i \<le> snd (fst l)"
      using b unfolding ls by (auto intro: Suc_leD)
    ultimately show ?thesis by simp
  qed
qed

lemma blocks_sorted:
  assumes "andthen_all (map (\<lambda>(k, c). F k c) (enumerate k0 cs)) = Inr ls"
    and "\<And>k c ls'. (k, c) \<in> set (enumerate k0 cs) \<Longrightarrow> F k c = Inr ls' \<Longrightarrow>
           sorted (map fst ls') \<and> (\<forall>l\<in>set ls'. \<exists>r. fst (fst l) = path @ k # r)"
  shows "sorted (map fst (ls :: (label \<times> 'd) list)) \<and>
         (\<forall>l\<in>set ls. \<exists>k r. k0 \<le> k \<and> fst (fst l) = path @ k # r)"
  using assms
proof (induction cs arbitrary: k0 ls)
  case Nil
  then show ?case by simp
next
  case (Cons c cs)
  from Cons.prems(1) obtain xs ys where
    xs: "F k0 c = Inr xs" and
    ys: "andthen_all (map (\<lambda>(k, c). F k c) (enumerate (Suc k0) cs)) = Inr ys" and
    ls: "ls = xs @ ys"
    by (auto simp: andthen_Inr)
  have x: "sorted (map fst xs) \<and> (\<forall>l\<in>set xs. \<exists>r. fst (fst l) = path @ k0 # r)"
    by (rule Cons.prems(2) [OF _ xs]) simp
  have y: "sorted (map fst ys) \<and>
           (\<forall>l\<in>set ys. \<exists>k r. Suc k0 \<le> k \<and> fst (fst l) = path @ k # r)"
    by (rule Cons.IH [OF ys]) (rule Cons.prems(2), auto)
  have cross: "fst a \<le> fst b" if "a \<in> set xs" "b \<in> set ys" for a b
  proof -
    from x that obtain r where a: "fst (fst a) = path @ k0 # r" by blast
    from y that obtain k r' where b: "Suc k0 \<le> k" "fst (fst b) = path @ k # r'" by blast
    from b(1) have "path @ k0 # r < path @ k # r'"
      by (intro path_less_sibling) simp
    then show ?thesis
      by (simp add: less_eq_prod_def a b(2))
  qed
  have "sorted (map fst xs @ map fst ys)"
    using x y cross by (auto simp: sorted_append)
  moreover have "\<forall>l\<in>set ls. \<exists>k r. k0 \<le> k \<and> fst (fst l) = path @ k # r"
    using x y unfolding ls by (auto intro: Suc_leD)
  ultimately show ?case by (simp add: ls)
qed

lemma run_labelled_sorted:
  "run_labelled visitors path parents node = Inr ls \<Longrightarrow>
   sorted (map fst ls) \<and> (\<forall>l\<in>set ls. \<exists>r. fst (fst l) = path @ r)"
proof (induction visitors path parents node arbitrary: ls rule: run_labelled.induct)
  case (1 visitors path parents node)
  let ?node = "annotate node"
  let ?meth = "''visit_'' @ lower (class_name ?node)"
  let ?F = "\<lambda>k child. run_labelled visitors (path @ [k]) (parents @ [?node]) child"
  from "1.prems" obtain xs ys where
    xs: "dispatch_labelled visitors 0 ?meth path ?node parents = Inr xs" and
    ys: "andthen_all (map (\<lambda>(k, c). ?F k c) (enumerate 0 (ast_iter_nodes ?node))) = Inr ys" and
    ls: "ls = xs @ ys"
    by (subst (asm) run_labelled.simps) (auto simp: Let_def andthen_Inr)
  from dispatch_labelled_sorted [OF xs]
  have x: "sorted (map fst xs)" "\<forall>l\<in>set xs. fst (fst l) = path"
    by auto
  have kid: "sorted (map fst ls') \<and> (\<forall>l\<in>set ls'. \<exists>r. fst (fst l) = path @ k # r)"
    if "(k, c) \<in> set (enumerate 0 (ast_iter_nodes ?node))" "?F k c = Inr ls'" for k c ls'
    using "1.IH" [OF refl refl that(1) refl that(2)] by simp
  from blocks_sorted [of ?F 0 "ast_iter_nodes ?node" ys path, OF ys kid]
  have y: "sorted (map fst ys)" "\<forall>l\<in>set ys. \<exists>k r. fst (fst l) = path @ k # r"
    by auto
  have cross: "fst a \<le> fst b" if "a \<in> set xs" "b \<in> set ys" for a b
  proof -
    from x(2) that have a: "fst (fst a) = path" by blast
    from y(2) that obtain k r where b: "fst (fst b) = path @ k # r" by blast
    show ?thesis
      by (simp add: less_eq_prod_def a b path_less_child)
  qed
  have "sorted (map fst xs @ map fst ys)"
    using x(1) y(1) cross by (auto simp: sorted_append)
  moreover have "\<forall>l\<in>set ls. \<exists>r. fst (fst l) = path @ r"
    using x(2) y(2) unfolding ls by auto
  ultimately show ?case by (simp add: ls)
qed

text \<open>
  Claim C5. For every tree and every registry, the diagnostics that \<^verbatim>\<open>run\<close> yields are
  the diagnostics of the labelled traversal, in the same order, and their labels are
  sorted: those of a node come before those of the nodes below it, those of a subtree
  before those of the subtrees of the later siblings, and at one node those of a visitor
  before those of the visitors after it in the registry.
\<close>

theorem diagnostics_in_preorder:
  "(run visitors (Some tree) = Inr ds \<longrightarrow>
      (\<exists>ls. run_labelled visitors [] [] tree = Inr ls \<and> map snd ls = ds \<and>
            sorted (map fst ls))) \<and>
   ((p, i) :: label) < (p @ k # r, j) \<and>
   (k < k' \<longrightarrow> ((p @ k # r, i) :: label) < (p @ k' # r', j)) \<and>
   (i < j \<longrightarrow> ((p, i) :: label) < (p, j))"
proof -
  have "\<exists>ls. run_labelled visitors [] [] tree = Inr ls \<and> map snd ls = ds \<and>
            sorted (map fst ls)"
    if "run visitors (Some tree) = Inr ds"
  proof -
    from that have "unlabelled (run_labelled visitors [] [] tree) = Inr ds"
      by (simp add: run_def unlabelled_run)
    then obtain ls where ls: "run_labelled visitors [] [] tree = Inr ls" "map snd ls = ds"
      by (auto simp: unlabelled_def split: sum.splits)
    from run_labelled_sorted [OF ls(1)] ls show ?thesis by blast
  qed
  moreover have "((p, i) :: label) < (p @ k # r, j)"
    by (simp add: less_prod_def path_less_child)
  moreover have "k < k' \<longrightarrow> ((p @ k # r, i) :: label) < (p @ k' # r', j)"
    by (simp add: less_prod_def path_less_sibling)
  moreover have "i < j \<longrightarrow> ((p, i) :: label) < (p, j)"
    by (simp add: less_prod_def)
  ultimately show ?thesis by blast
qed

theorem diagnostics_in_preorder_witness:
  "run checks (Some (Other ''Module''
      [ClassDef 1 0 ''myClass'' []
         [FunctionDef 2 4 ''Foo'' \<lparr>args = [''x''], vararg = None, kwonlyargs = [], kwarg = None\<rparr>
            [] [] [] [] None None] [],
       ImportFrom 4 0 [(''getcwd'', Some ''GETCWD'')]]))
   = Inr [(1, 6, ''E800 '' @ E800, ClassNameCheck),
          (2, 8, ''E801 '' @ E801, FunctionNameCheck),
          (2, 8, ''E804 '' @ E804, FunctionArgNamesCheck),
          (4, 0, ''W801 '' @ W801, ImportAsCheck)] \<and>
   run_labelled checks [] [] (Other ''Module''
      [ClassDef 1 0 ''myClass'' []
         [FunctionDef 2 4 ''Foo'' \<lparr>args = [''x''], vararg = None, kwonlyargs = [], kwarg = None\<rparr>
            [] [] [] [] None None] [],
       ImportFrom 4 0 [(''getcwd'', Some ''GETCWD'')]])
   = Inr [(([0], 0), (1, 6, ''E800 '' @ E800, ClassNameCheck)),
          (([0, 0], 1), (2, 8, ''E801 '' @ E801, FunctionNameCheck)),
          (([0, 0], 2), (2, 8, ''E804 '' @ E804, FunctionArgNamesCheck)),
          (([1], 3), (4, 0, ''W801 '' @ W801, ImportAsCheck))] \<and>
   sorted [([0], 0), ([0, 0], 1), ([0, 0], 2), ([1], 3) :: label]"
proof -
  let ?tree = "Other ''Module''
      [ClassDef 1 0 ''myClass'' []
         [FunctionDef 2 4 ''Foo'' \<lparr>args = [''x''], vararg = None, kwonlyargs = [], kwarg = None\<rparr>
            [] [] [] [] None None] [],
       ImportFrom 4 0 [(''getcwd'', Some ''GETCWD'')]]"
  have r: "run checks (Some ?tree)
   = Inr [(1, 6, ''E800 '' @ E800, ClassNameCheck),
          (2, 8, ''E801 '' @ E801, FunctionNameCheck),
          (2, 8, ''E804 '' @ E804, FunctionArgNamesCheck),
          (4, 0, ''W801 '' @ W801, ImportAsCheck)]"
    by code_simp
  have l: "run_labelled checks [] [] ?tree
   = Inr [(([0], 0), (1, 6, ''E800 '' @ E800, ClassNameCheck)),
          (([0, 0], 1), (2, 8, ''E801 '' @ E801, FunctionNameCheck)),
          (([0, 0], 2), (2, 8, ''E804 '' @ E804, FunctionArgNamesCheck)),
          (([1], 3), (4, 0, ''W801 '' @ W801, ImportAsCheck))]"
    by code_simp
  let ?L = "[(([0], 0), (1, 6, ''E800 '' @ E800, ClassNameCheck)),
          (([0, 0], 1), (2, 8, ''E801 '' @ E801, FunctionNameCheck)),
          (([0, 0], 2), (2, 8, ''E804 '' @ E804, FunctionArgNamesCheck)),
          (([1], 3), (4, 0, ''W801 '' @ W801, ImportAsCheck))] :: (label \<times> diagnostic) list"
  from diagnostics_in_preorder [of checks ?tree _ "[]" 0 0 "[]" 0 0 "[]"] r
  obtain ls where a: "run_labelled checks [] [] ?tree = Inr ls" and b: "sorted (map fst ls)"
    by blast
  from a [unfolded l] have "?L = ls"
    by (simp only: sum.inject)
  with b have "sorted (map fst ?L)"
    by (simp only:)
  then have s: "sorted [([0], 0), ([0, 0], 1), ([0, 0], 2), ([1], 3) :: label]"
    by (simp only: list.map fst_conv)
  from r l s show ?thesis by (intro conjI)
qed

end
